theory Spec2Isabelle
  imports Complex_Main "HOL-Library.Log_Nat"
begin

section \<open>Python values and exceptions\<close>

text \<open>
  The exceptions the two modules can raise.  A raise is the \<open>Inl\<close> branch of a sum.
\<close>

datatype error =
  ValueError | ZeroDivisionError | OverflowError | KeyError | IndexError | AttributeError
  | RuntimeError

section \<open>Python floats\<close>

text \<open>
  A Python float is an IEEE 754 binary64 number: a finite value, an infinity or NaN.
  \<open>Finite x\<close> holds the exact value; the two zeros, which compare equal and which no
  operation below tells apart, are both \<open>Finite 0\<close>.
\<close>

datatype double = Finite rat | PInf | NInf | NaN

text \<open>\<open>2\<close> to an integer power, and the \<open>e\<close> with \<open>2^e \<le> x < 2^(e+1)\<close> for \<open>x > 0\<close>.\<close>

definition pow2 :: "int \<Rightarrow> rat" where
  "pow2 e = (if 0 \<le> e then of_int (2 ^ nat e) else 1 / of_int (2 ^ nat (- e)))"

definition ilog2 :: "rat \<Rightarrow> int" where
  "ilog2 x =
     (case quotient_of x of
        (p, q) \<Rightarrow> (let e = bitlen p - bitlen q in if pow2 e \<le> x then e else e - 1))"

text \<open>Python 3 \<^verbatim>\<open>round(x)\<close> of a finite float: the nearest integer, ties to the even one.\<close>

definition py_round :: "rat \<Rightarrow> int" where
  "py_round x =
     (let f = \<lfloor>x\<rfloor>; r = x - of_int f
      in if r < 1 / 2 then f
         else if 1 / 2 < r then f + 1
         else if even f then f else f + 1)"

text \<open>
  The result of an arithmetic operation is its exact value rounded to the nearest
  double, ties to the even significand.  A double has 53 significant bits and its least
  exponent is \<open>-1022\<close>, so the doubles around \<open>x\<close> are the multiples of \<open>2^(e-52)\<close>
  with \<open>e\<close> the exponent of \<open>x\<close>, or \<open>-1022\<close> below the normal range.  A rounded
  value of magnitude \<open>2^1024\<close> or more overflows to an infinity.
\<close>

definition overflow_threshold :: rat where
  "overflow_threshold = 2 ^ 1024"

definition exponent :: "rat \<Rightarrow> int" where
  "exponent x = max (ilog2 \<bar>x\<bar>) (- 1022)"

definition round_double :: "rat \<Rightarrow> double" where
  "round_double x =
     (if x = 0 then Finite 0
      else
        (let q = pow2 (exponent x - 52);
             y = of_int (py_round (x / q)) * q
         in if overflow_threshold \<le> \<bar>y\<bar> then (if 0 < x then PInf else NInf)
            else Finite y))"

text \<open>The rationals that are values of doubles.\<close>

definition is_double :: "rat \<Rightarrow> bool" where
  "is_double x = (round_double x = Finite x)"

text \<open>\<^verbatim>\<open>a >= b\<close>, \<^verbatim>\<open>a - b\<close>, \<^verbatim>\<open>a * b\<close> and \<^verbatim>\<open>a / b\<close> on floats.  Python raises
  ZeroDivisionError on a zero divisor, whatever the dividend.\<close>

fun fl_ge :: "double \<Rightarrow> double \<Rightarrow> bool" where
  "fl_ge NaN b = False"
| "fl_ge a NaN = False"
| "fl_ge PInf b = True"
| "fl_ge a NInf = True"
| "fl_ge NInf b = False"
| "fl_ge a PInf = False"
| "fl_ge (Finite a) (Finite b) = (b \<le> a)"

fun fl_sub :: "double \<Rightarrow> double \<Rightarrow> double" where
  "fl_sub NaN b = NaN"
| "fl_sub a NaN = NaN"
| "fl_sub PInf PInf = NaN"
| "fl_sub NInf NInf = NaN"
| "fl_sub PInf b = PInf"
| "fl_sub NInf b = NInf"
| "fl_sub a PInf = NInf"
| "fl_sub a NInf = PInf"
| "fl_sub (Finite a) (Finite b) = round_double (a - b)"

definition signed_inf :: "bool \<Rightarrow> double" where
  "signed_inf positive = (if positive then PInf else NInf)"

fun fl_mul :: "double \<Rightarrow> double \<Rightarrow> double" where
  "fl_mul NaN b = NaN"
| "fl_mul a NaN = NaN"
| "fl_mul (Finite a) (Finite b) = round_double (a * b)"
| "fl_mul (Finite a) PInf = (if a = 0 then NaN else signed_inf (0 < a))"
| "fl_mul (Finite a) NInf = (if a = 0 then NaN else signed_inf (a < 0))"
| "fl_mul PInf (Finite b) = (if b = 0 then NaN else signed_inf (0 < b))"
| "fl_mul NInf (Finite b) = (if b = 0 then NaN else signed_inf (b < 0))"
| "fl_mul PInf PInf = PInf"
| "fl_mul NInf NInf = PInf"
| "fl_mul PInf NInf = NInf"
| "fl_mul NInf PInf = NInf"

fun fl_div :: "double \<Rightarrow> double \<Rightarrow> error + double" where
  "fl_div a (Finite b) =
     (if b = 0 then Inl ZeroDivisionError
      else (case a of
              Finite x \<Rightarrow> Inr (round_double (x / b))
            | PInf \<Rightarrow> Inr (signed_inf (0 < b))
            | NInf \<Rightarrow> Inr (signed_inf (b < 0))
            | NaN \<Rightarrow> Inr NaN))"
| "fl_div (Finite a) b = (if b = NaN then Inr NaN else Inr (Finite 0))"
| "fl_div a b = Inr NaN"

text \<open>
  \<^verbatim>\<open>round(x)\<close> of a float: OverflowError on an infinity, ValueError on NaN.
\<close>

definition float_round :: "double \<Rightarrow> error + int" where
  "float_round x =
     (case x of
        Finite v \<Rightarrow> Inr (py_round v)
      | NaN \<Rightarrow> Inl ValueError
      | _ \<Rightarrow> Inl OverflowError)"

section \<open>Odds normalization (scraper.py, lines 179, 186, 194 and 229)\<close>

text \<open>
  \<^verbatim>\<open>round((d - 1) * 100) if d >= 2.00 else round(-100 / (d - 1))\<close>,
  every operation on floats; the integers 1, 100 and -100 are converted exactly.
\<close>

definition normalize_odds :: "double \<Rightarrow> error + int" where
  "normalize_odds d =
     (if fl_ge d (Finite 2)
      then float_round (fl_mul (fl_sub d (Finite 1)) (Finite 100))
      else (case fl_div (Finite (- 100)) (fl_sub d (Finite 1)) of
              Inl e \<Rightarrow> Inl e
            | Inr v \<Rightarrow> float_round v))"

text \<open>
  \<^verbatim>\<open>float(text)\<close> and \<^verbatim>\<open>int(text)\<close> are builtins of the Python runtime.  They
  are parameters of the model: \<open>None\<close> stands for the ValueError the builtin raises on
  a text it cannot parse.  \<^verbatim>\<open>float\<close> can give an infinity or NaN.
\<close>

record runtime =
  py_float :: "string \<Rightarrow> double option"
  py_int :: "string \<Rightarrow> int option"

text \<open>\<^verbatim>\<open>float(t)\<close> followed by the normalization, as every odds extraction does.\<close>

definition odds_of_text :: "runtime \<Rightarrow> string \<Rightarrow> error + int" where
  "odds_of_text rt t =
     (case py_float rt t of
        None \<Rightarrow> Inl ValueError
      | Some d \<Rightarrow> normalize_odds d)"

section \<open>Python string operations\<close>

text \<open>
  A Python \<^verbatim>\<open>str\<close> is modelled as a \<open>string\<close> holding its UTF-8 bytes.  Substring
  search, split and replace on code points agree with the same operations on the UTF-8
  bytes, because no encoded character is a proper part of another one.
\<close>

fun startswith :: "string \<Rightarrow> string \<Rightarrow> bool" where
  "startswith s [] = True"
| "startswith [] (p # ps) = False"
| "startswith (c # cs) (p # ps) = (c = p \<and> startswith cs ps)"

text \<open>\<^verbatim>\<open>sub in s\<close>\<close>

fun contains :: "string \<Rightarrow> string \<Rightarrow> bool" where
  "contains sub [] = (sub = [])"
| "contains sub (c # cs) = (startswith (c # cs) sub \<or> contains sub cs)"

text \<open>
  \<^verbatim>\<open>s.replace(old, new)\<close>: every occurrence of \<open>old\<close>, found from the left and not
  overlapping, is replaced.  The counter is the number of characters of a matched
  occurrence still to be skipped.
\<close>

fun replace_go :: "string \<Rightarrow> string \<Rightarrow> nat \<Rightarrow> string \<Rightarrow> string" where
  "replace_go old new k [] = []"
| "replace_go old new k (c # cs) =
     (if 0 < k then replace_go old new (k - 1) cs
      else if startswith (c # cs) old then new @ replace_go old new (length old - 1) cs
      else c # replace_go old new 0 cs)"

definition py_replace :: "string \<Rightarrow> string \<Rightarrow> string \<Rightarrow> string" where
  "py_replace s old new =
     (if old = [] then new @ concat (map (\<lambda>c. c # new) s)
      else replace_go old new 0 s)"

text \<open>\<^verbatim>\<open>s.split(sep)\<close> for a separator that is not empty.\<close>

fun split_go :: "string \<Rightarrow> nat \<Rightarrow> string \<Rightarrow> string \<Rightarrow> string list" where
  "split_go sep k cur [] = [rev cur]"
| "split_go sep k cur (c # cs) =
     (if 0 < k then split_go sep (k - 1) cur cs
      else if startswith (c # cs) sep then rev cur # split_go sep (length sep - 1) [] cs
      else split_go sep 0 (c # cur) cs)"

definition py_split :: "string \<Rightarrow> string \<Rightarrow> string list" where
  "py_split s sep = split_go sep 0 [] s"

text \<open>
  \<^verbatim>\<open>s.strip(chars)\<close> removes the given characters from both ends; the source
  passes the ASCII character \<^verbatim>\<open>%\<close>.
\<close>

definition strip_chars :: "char list \<Rightarrow> string \<Rightarrow> string" where
  "strip_chars cs s =
     rev (dropWhile (\<lambda>c. c \<in> set cs) (rev (dropWhile (\<lambda>c. c \<in> set cs) s)))"

text \<open>
  \<^verbatim>\<open>s.strip()\<close> removes the whitespace characters of Unicode from both ends:
  U+0009 to U+000D, U+001C to U+0020, U+0085, U+00A0, U+1680, U+2000 to U+200A, U+2028,
  U+2029, U+202F, U+205F and U+3000, here in UTF-8.
\<close>

definition whitespace :: "string list" where
  "whitespace =
     [[CHR 0x09], [CHR 0x0A], [CHR 0x0B], [CHR 0x0C], [CHR 0x0D],
      [CHR 0x1C], [CHR 0x1D], [CHR 0x1E], [CHR 0x1F], [CHR 0x20],
      [CHR 0xC2, CHR 0x85], [CHR 0xC2, CHR 0xA0], [CHR 0xE1, CHR 0x9A, CHR 0x80],
      [CHR 0xE2, CHR 0x80, CHR 0x80], [CHR 0xE2, CHR 0x80, CHR 0x81],
      [CHR 0xE2, CHR 0x80, CHR 0x82], [CHR 0xE2, CHR 0x80, CHR 0x83],
      [CHR 0xE2, CHR 0x80, CHR 0x84], [CHR 0xE2, CHR 0x80, CHR 0x85],
      [CHR 0xE2, CHR 0x80, CHR 0x86], [CHR 0xE2, CHR 0x80, CHR 0x87],
      [CHR 0xE2, CHR 0x80, CHR 0x88], [CHR 0xE2, CHR 0x80, CHR 0x89],
      [CHR 0xE2, CHR 0x80, CHR 0x8A], [CHR 0xE2, CHR 0x80, CHR 0xA8],
      [CHR 0xE2, CHR 0x80, CHR 0xA9], [CHR 0xE2, CHR 0x80, CHR 0xAF],
      [CHR 0xE2, CHR 0x81, CHR 0x9F], [CHR 0xE3, CHR 0x80, CHR 0x80]]"

text \<open>Removing, from the front, every leading occurrence of one of the given words.\<close>

function lstrip_words :: "string list \<Rightarrow> string \<Rightarrow> string" where
  "lstrip_words ws s =
     (case find (\<lambda>w. w \<noteq> [] \<and> startswith s w) ws of
        None \<Rightarrow> s
      | Some w \<Rightarrow> lstrip_words ws (drop (length w) s))"
  by pat_completeness auto
termination
proof (relation "measure (\<lambda>(ws, s). length s)")
  show "wf (measure (\<lambda>(ws, s). length s))" by simp
next
  fix ws :: "string list" and s w :: string
  assume "find (\<lambda>w. w \<noteq> [] \<and> startswith s w) ws = Some w"
  then have "w \<noteq> [] \<and> startswith s w" by (auto simp: find_Some_iff)
  then have "w \<noteq> [] \<and> s \<noteq> []" by (cases s; cases w) auto
  then show "((ws, drop (length w) s), (ws, s)) \<in> measure (\<lambda>(ws, s). length s)" by simp
qed

declare lstrip_words.simps [simp del]

definition py_strip :: "string \<Rightarrow> string" where
  "py_strip s =
     rev (lstrip_words (map rev whitespace) (rev (lstrip_words whitespace s)))"

text \<open>\<^verbatim>\<open>str(i)\<close> of an integer: its decimal digits, with a minus sign when negative.\<close>

fun str_nat :: "nat \<Rightarrow> string" where
  "str_nat n =
     (if n < 10 then [''0123456789'' ! n]
      else str_nat (n div 10) @ [''0123456789'' ! (n mod 10)])"

declare str_nat.simps [simp del]

definition str_int :: "int \<Rightarrow> string" where
  "str_int i = (if i < 0 then CHR ''-'' # str_nat (nat (- i)) else str_nat (nat i))"

text \<open>The two literals of the source that are not ASCII, in UTF-8.\<close>

definition last_page_glyph :: string where
  \<comment> \<open>U+00BB, the right-pointing double angle quotation mark, and a vertical bar\<close>
  "last_page_glyph = [CHR 0xC2, CHR 0xBB, CHR ''|'']"

definition en_dash :: string where
  \<comment> \<open>U+2013, the en dash\<close>
  "en_dash = [CHR 0xE2, CHR 0x80, CHR 0x93]"

section \<open>Data model\<close>

datatype outcome = HOME | AWAY | DRAW | UNKNOWN

record game =
  retrieval_url :: "string option"
  retrieval_datetime :: "string option"
  game_url :: "string option"
  num_possible_outcomes :: "int option"
  team_home :: "string option"
  team_away :: "string option"
  score_home :: "int option"
  score_away :: "int option"
  outcome :: outcome
  odds_home :: "int option"
  odds_away :: "int option"
  odds_draw :: "int option"
  final_odds_home :: "int option"
  final_odds_away :: "int option"
  final_odds_draw :: "int option"
  pub_percent :: "double option"

record season =
  name :: string
  possible_outcomes :: int
  urls :: "string list"
  games :: "game list"

text \<open>
  Modelled from the spec: the classes \<^verbatim>\<open>Game\<close> and \<^verbatim>\<open>Season\<close> live in
  \<^verbatim>\<open>models.py\<close>, which is not among the sources.  The spec gives the fields above;
  every nullable field of a new Game is absent and its outcome is UNKNOWN until derived.
\<close>

definition Game :: game where
  "Game = \<lparr>retrieval_url = None, retrieval_datetime = None, game_url = None,
           num_possible_outcomes = None, team_home = None, team_away = None,
           score_home = None, score_away = None, outcome = UNKNOWN,
           odds_home = None, odds_away = None, odds_draw = None,
           final_odds_home = None, final_odds_away = None, final_odds_draw = None,
           pub_percent = None\<rparr>"

text \<open>
  Modelled from the spec: \<^verbatim>\<open>Season(name)\<close> of \<^verbatim>\<open>models.py\<close> makes a season with
  that name, no URL and no game.  Its number of possible outcomes is fixed at
  construction; the value the constructor chooses is a parameter here.
\<close>

definition Season :: "int \<Rightarrow> string \<Rightarrow> season" where
  "Season po n = \<lparr>name = n, possible_outcomes = po, urls = [], games = []\<rparr>"

text \<open>
  Modelled from the spec: \<^verbatim>\<open>Season.add_game\<close> of \<^verbatim>\<open>models.py\<close> appends the game to
  the season's games, which are append-only.
\<close>

definition add_game :: "season \<Rightarrow> game \<Rightarrow> season" where
  "add_game s g = s\<lparr>games := games s @ [g]\<rparr>"

section \<open>Rendered pages and the browser\<close>

text \<open>
  The HTML query capability is external.  A rendered page is modelled by what the
  queries of the two modules return on it.  An element has its attributes, its text
  (\<open>None\<close> as in lxml when there is none) and, for \<^verbatim>\<open>link.find('span')\<close>, the text of
  its first \<^verbatim>\<open>span\<close> child: \<open>None\<close> without such a child, \<open>Some None\<close> for a span
  without text.
\<close>

record element =
  attrib :: "string \<rightharpoonup> string"
  elem_text :: "string option"
  span_text :: "string option option"

text \<open>
  An event row, by the queries \<^verbatim>\<open>populate_games_into_season\<close> makes on it:
  the \<^verbatim>\<open>href\<close> of the event link (\<open>None\<close> without link or attribute), the texts of
  the participant name elements, the text of the score element (\<open>None\<close> when no element
  matches) and the texts of the odds elements of the row.
\<close>

record row =
  game_link :: "string option"
  participant_names :: "string list"
  score_text :: "string option"
  odds_elems :: "string list"

record page =
  no_data_div :: string
    \<comment> \<open>\<^verbatim>\<open>.text()\<close> of \<^verbatim>\<open>div.message-info > ul > li > div.cms\<close>, empty without a match\<close>
  pagination_links :: "element list"
    \<comment> \<open>\<^verbatim>\<open>div#pagination > a\<close>\<close>
  find_links :: "string \<Rightarrow> element list"
    \<comment> \<open>\<^verbatim>\<open>html_querying.find(selector)\<close>\<close>
  game_rows :: "row list"
    \<comment> \<open>\<^verbatim>\<open>div[class*="eventRow"]\<close>\<close>
  height_content :: "string list"
    \<comment> \<open>the texts of the \<^verbatim>\<open>p[class="height-content"]\<close> elements\<close>

text \<open>
  The browser session is a state \<open>'w\<close> that every navigation changes.  The Navigation
  Controller \<^verbatim>\<open>go_to_link\<close> is taken by its contract: it reports success or failure
  and leaves the browser in a new state; \<^verbatim>\<open>get_html_source\<close> reads the page the
  browser then shows.  The bounded wait for the public percentage and the clock are
  part of the same environment: \<open>wait_percentage\<close> gives the text of the percentage
  element, or \<open>None\<close> when the wait or the lookup raises.
\<close>

record 'w browser =
  go_to_link :: "'w \<Rightarrow> string \<Rightarrow> bool \<times> 'w"
  get_html_source :: "'w \<Rightarrow> page"
  wait_percentage :: "'w \<Rightarrow> string option \<times> 'w"
  strftime_now :: "'w \<Rightarrow> string"

section \<open>Crawler (crawler.py)\<close>

subsection \<open>\<^verbatim>\<open>get_seasons_for_league\<close> (lines 103 to 157)\<close>

definition season_selectors :: "string list" where
  \<open>season_selectors =
     [''a[href*="/results/"]'', ''div[class*="seasons"] a'',
      ''div[class*="filter"] a'', ''div[class*="tournament-nav"] a'']\<close>

text \<open>
  The inner loop over the links one selector matched (lines 142 to 152).  Reading a
  missing \<^verbatim>\<open>href\<close> raises KeyError, which nothing catches.
\<close>

fun add_season_links :: "int \<Rightarrow> element list \<Rightarrow> season list \<Rightarrow> error + season list" where
  "add_season_links po [] seasons = Inr seasons"
| "add_season_links po (season_link # rest) seasons =
     (case attrib season_link ''href'' of
        None \<Rightarrow> Inl KeyError
      | Some href \<Rightarrow>
          (let text = (case elem_text season_link of None \<Rightarrow> [] | Some t \<Rightarrow> t)
           in if contains ''/results/'' href \<and> text \<noteq> []
              then add_season_links po rest
                     (seasons @ [(Season po (py_strip text))\<lparr>urls := [href]\<rparr>])
              else add_season_links po rest seasons))"

text \<open>The outer loop over the selectors (lines 137 to 152).  It has no \<^verbatim>\<open>break\<close>.\<close>

fun try_selectors :: "int \<Rightarrow> page \<Rightarrow> string list \<Rightarrow> season list \<Rightarrow> error + season list" where
  "try_selectors po html_querying [] seasons = Inr seasons"
| "try_selectors po html_querying (selector # rest) seasons =
     (let season_links = find_links html_querying selector
      in if season_links \<noteq> []
         then (case add_season_links po season_links seasons of
                 Inl e \<Rightarrow> Inl e
               | Inr seasons' \<Rightarrow> try_selectors po html_querying rest seasons')
         else try_selectors po html_querying rest seasons)"

definition get_seasons_for_league ::
  "'w browser \<Rightarrow> int \<Rightarrow> 'w \<Rightarrow> string \<Rightarrow> (error + season list) \<times> 'w" where
  "get_seasons_for_league br po w main_league_results_url =
     (case go_to_link br w main_league_results_url of
        (ok, w') \<Rightarrow>
          if \<not> ok then (Inr [], w')
          else (try_selectors po (get_html_source br w') season_selectors [], w'))"

subsection \<open>\<^verbatim>\<open>fill_in_season_pagination_links\<close> (lines 159 to 195)\<close>

text \<open>The test of line 183 on one pagination anchor.\<close>

definition has_last_page_glyph :: "element \<Rightarrow> bool" where
  "has_last_page_glyph link =
     (case span_text link of
        None \<Rightarrow> False
      | Some None \<Rightarrow> False
      | Some (Some t) \<Rightarrow> contains last_page_glyph t)"

text \<open>
  The loop of lines 181 to 187 over the reversed anchors.  \<open>None\<close> is the loop ending
  without a match, \<^verbatim>\<open>last_page_number\<close> still \<open>-1\<close>; otherwise the page number and
  the last page's URL are set together.  A missing attribute raises KeyError and a page
  index that is no integer raises ValueError.
\<close>

fun find_last_page ::
  "runtime \<Rightarrow> string \<Rightarrow> element list \<Rightarrow> error + (int \<times> string) option" where
  "find_last_page rt first_url_in_season [] = Inr None"
| "find_last_page rt first_url_in_season (link # rest) =
     (if has_last_page_glyph link
      then (case attrib link ''x-page'' of
              None \<Rightarrow> Inl KeyError
            | Some x_page \<Rightarrow>
                (case py_int rt x_page of
                   None \<Rightarrow> Inl ValueError
                 | Some last_page_number \<Rightarrow>
                     (case attrib link ''href'' of
                        None \<Rightarrow> Inl KeyError
                      | Some href \<Rightarrow> Inr (Some (last_page_number, first_url_in_season @ href)))))
      else find_last_page rt first_url_in_season rest)"

text \<open>The URL of page \<open>i\<close>, line 193.\<close>

definition page_url :: "string \<Rightarrow> int \<Rightarrow> int \<Rightarrow> string" where
  "page_url last_page_url last_page_number i =
     py_replace last_page_url (''page/'' @ str_int last_page_number) (''page/'' @ str_int i)"

text \<open>
  The resolver.  The result of \<^verbatim>\<open>go_to_link\<close> is not used (line 165).  An exception
  leaves the season as it was: every raise comes before the first append.
\<close>

definition fill_in_season_pagination_links ::
  "'w browser \<Rightarrow> runtime \<Rightarrow> 'w \<Rightarrow> season \<Rightarrow> (error + season) \<times> 'w" where
  "fill_in_season_pagination_links br rt w season =
     (case urls season of
        [] \<Rightarrow> (Inl IndexError, w)
      | first_url_in_season # _ \<Rightarrow>
          (case go_to_link br w first_url_in_season of
             (ok, w') \<Rightarrow>
               (let html_querying = get_html_source br w'
                in if no_data_div html_querying = ''No data available'' then (Inr season, w')
                   else if length (pagination_links html_querying) \<le> 1 then (Inr season, w')
                   else
                     (case find_last_page rt first_url_in_season
                             (rev (pagination_links html_querying)) of
                        Inl e \<Rightarrow> (Inl e, w')
                      | Inr None \<Rightarrow> (Inl RuntimeError, w')
                      | Inr (Some (last_page_number, last_page_url)) \<Rightarrow>
                          if last_page_number = - 1 then (Inl RuntimeError, w')
                          else (Inr (season\<lparr>urls := urls season
                                        @ map (page_url last_page_url last_page_number)
                                            [2 .. last_page_number - 1]
                                        @ [last_page_url]\<rparr>), w')))))"

section \<open>Scraper (scraper.py)\<close>

subsection \<open>The average odds of the detail page (lines 167 to 199)\<close>

text \<open>\<^verbatim>\<open>xs[-6:-3]\<close>: the three elements before the last three, fewer on a short list.\<close>

definition average_odds_slice :: "'a list \<Rightarrow> 'a list" where
  "average_odds_slice xs = drop (length xs - 6) (take (length xs - 3) xs)"

text \<open>
  The game is changed in place, so when an exception leaves a block the fields set
  until then stay set: \<open>Raised e g\<close> is the exception \<open>e\<close> with the game as it then is.
\<close>

datatype flow = Raised error game | Done game

text \<open>
  Lines 176 to 188.  The two handlers catch ValueError and ZeroDivisionError and call
  \<^verbatim>\<open>.text()\<close> on the list \<^verbatim>\<open>home_odds_elem\<close>, which raises AttributeError out
  of the handler; an OverflowError passes them by.  Reading the second element of a
  one-element slice raises IndexError.
\<close>

definition handler_error :: "error \<Rightarrow> error" where
  "handler_error e = (if e = ValueError \<or> e = ZeroDivisionError then AttributeError else e)"

definition home_away_odds :: "runtime \<Rightarrow> string list \<Rightarrow> game \<Rightarrow> flow" where
  "home_away_odds rt home_odds_elem game =
     (if home_odds_elem \<noteq> []
      then (case odds_of_text rt (home_odds_elem ! 0) of
              Inl e \<Rightarrow> Raised (handler_error e) game
            | Inr home \<Rightarrow>
                (if length home_odds_elem < 2
                 then Raised IndexError (game\<lparr>odds_home := Some home\<rparr>)
                 else (case odds_of_text rt (home_odds_elem ! 1) of
                         Inl e \<Rightarrow> Raised (handler_error e) (game\<lparr>odds_home := Some home\<rparr>)
                       | Inr away \<Rightarrow>
                           Done (game\<lparr>odds_home := Some home, odds_away := Some away\<rparr>))))
      else Done game)"

text \<open>Lines 191 to 196.  Here the handler only logs; an OverflowError passes it by.\<close>

definition draw_odds :: "runtime \<Rightarrow> int \<Rightarrow> string list \<Rightarrow> game \<Rightarrow> flow" where
  "draw_odds rt po home_odds_elem game =
     (if po = 3
      then (if length home_odds_elem < 3 then Raised IndexError game
            else (case odds_of_text rt (home_odds_elem ! 2) of
                    Inl e \<Rightarrow>
                      if e = ValueError \<or> e = ZeroDivisionError then Done game
                      else Raised e game
                  | Inr draw \<Rightarrow> Done (game\<lparr>odds_draw := Some draw\<rparr>)))
      else Done game)"

text \<open>The whole block; line 198 catches whatever leaves it.\<close>

definition average_odds :: "runtime \<Rightarrow> int \<Rightarrow> string list \<Rightarrow> game \<Rightarrow> game" where
  "average_odds rt po texts game =
     (let home_odds_elem = average_odds_slice texts
      in case home_away_odds rt home_odds_elem game of
           Raised e game' \<Rightarrow> game'
         | Done game' \<Rightarrow>
             (case draw_odds rt po home_odds_elem game' of
                Raised e game'' \<Rightarrow> game''
              | Done game'' \<Rightarrow> game''))"

subsection \<open>The steps on one event row (lines 155 to 274)\<close>

definition base_url :: string where
  "base_url = ''https://www.oddsportal.com''"

text \<open>Lines 158 to 199: the first detail view, when the row has an event link.\<close>

definition detail_odds ::
  "'w browser \<Rightarrow> runtime \<Rightarrow> int \<Rightarrow> row \<Rightarrow> 'w \<Rightarrow> game \<Rightarrow> game \<times> 'w" where
  "detail_odds br rt po r w game =
     (case game_link r of
        None \<Rightarrow> (game, w)
      | Some link \<Rightarrow>
          if link = [] then (game, w)
          else
            (let url = base_url @ link @ ''#home-away;8'';
                 game' = game\<lparr>game_url := Some url\<rparr>
             in case go_to_link br w url of
                  (ok, w') \<Rightarrow>
                    if ok
                    then (average_odds rt po (height_content (get_html_source br w')) game', w')
                    else (game', w')))"

text \<open>Lines 203 to 208: the first and the last participant name of the row.\<close>

definition teams :: "row \<Rightarrow> game \<Rightarrow> game" where
  "teams r game =
     (if participant_names r \<noteq> []
      then game\<lparr>team_home := Some (py_strip (hd (participant_names r))),
                team_away := Some (py_strip (last (participant_names r)))\<rparr>
      else game)"

text \<open>
  Lines 211 to 216.  \<^verbatim>\<open>int\<close> raises ValueError, which only the handler of the whole
  row catches (line 288): the game is then dropped, also when the home score was
  already assigned.
\<close>

definition scores :: "runtime \<Rightarrow> row \<Rightarrow> game \<Rightarrow> error + game" where
  "scores rt r game =
     (case score_text r of
        None \<Rightarrow> Inr game
      | Some t \<Rightarrow>
          (let parts = py_split t en_dash
           in if length parts = 2
              then (case py_int rt (py_strip (parts ! 0)) of
                      None \<Rightarrow> Inl ValueError
                    | Some h \<Rightarrow>
                        (case py_int rt (py_strip (parts ! 1)) of
                           None \<Rightarrow> Inl ValueError
                         | Some a \<Rightarrow> Inr (game\<lparr>score_home := Some h, score_away := Some a\<rparr>)))
              else Inr game))"

text \<open>Lines 220 to 222.\<close>

definition metadata :: "'w browser \<Rightarrow> 'w \<Rightarrow> string \<Rightarrow> int \<Rightarrow> game \<Rightarrow> game" where
  "metadata br w url po game =
     game\<lparr>retrieval_datetime := Some (strftime_now br w), retrieval_url := Some url,
          num_possible_outcomes := Some po\<rparr>"

text \<open>
  Lines 225 to 235: the odds shown in the row itself, by position.  Here a text that
  is no number, or an odds value on which the normalization raises, raises out of the
  loop to the handler of the row.
\<close>

fun final_odds :: "runtime \<Rightarrow> int \<Rightarrow> nat \<Rightarrow> string list \<Rightarrow> game \<Rightarrow> error + game" where
  "final_odds rt po i [] game = Inr game"
| "final_odds rt po i (odd_elem # rest) game =
     (case odds_of_text rt odd_elem of
        Inl e \<Rightarrow> Inl e
      | Inr odd_text \<Rightarrow>
          final_odds rt po (Suc i) rest
            (if i = 0 then game\<lparr>final_odds_home := Some odd_text\<rparr>
             else if i = 1 then game\<lparr>final_odds_away := Some odd_text\<rparr>
             else if i = 2 \<and> po = 3 then game\<lparr>final_odds_draw := Some odd_text\<rparr>
             else game))"

text \<open>Lines 238 to 244.\<close>

definition determine_outcome :: "game \<Rightarrow> game" where
  "determine_outcome game =
     (case (score_home game, score_away game) of
        (Some h, Some a) \<Rightarrow>
          if a < h then game\<lparr>outcome := HOME\<rparr>
          else if h < a then game\<lparr>outcome := AWAY\<rparr>
          else game\<lparr>outcome := DRAW\<rparr>
      | _ \<Rightarrow> game)"

text \<open>
  Lines 247 to 274: the second detail view.  The result of the navigation is not used
  by what follows; a percentage text that is no number raises inside the block, which
  logs it.
\<close>

definition public_percentage ::
  "'w browser \<Rightarrow> runtime \<Rightarrow> row \<Rightarrow> 'w \<Rightarrow> game \<Rightarrow> game \<times> 'w" where
  "public_percentage br rt r w game =
     (case game_link r of
        None \<Rightarrow> (game, w)
      | Some link \<Rightarrow>
          if link = [] then (game, w)
          else
            (let url = base_url @ link @ ''#home-away;1'';
                 game' = game\<lparr>game_url := Some url\<rparr>
             in case go_to_link br w url of
                  (ok, w') \<Rightarrow>
                    (case wait_percentage br w' of
                       (None, w'') \<Rightarrow> (game', w'')
                     | (Some percentage_text, w'') \<Rightarrow>
                         if percentage_text \<noteq> [] \<and> contains ''%'' percentage_text
                         then (case py_float rt (strip_chars ''%'' percentage_text) of
                                 None \<Rightarrow> (game', w'')
                               | Some p \<Rightarrow> (game'\<lparr>pub_percent := Some p\<rparr>, w''))
                         else (game', w''))))"

text \<open>The body of the \<^verbatim>\<open>try\<close> of one row, up to the test of line 284.\<close>

definition parse_row ::
  "'w browser \<Rightarrow> runtime \<Rightarrow> int \<Rightarrow> string \<Rightarrow> 'w \<Rightarrow> row \<Rightarrow> (error + game) \<times> 'w" where
  "parse_row br rt po url w r =
     (case detail_odds br rt po r w Game of
        (g1, w1) \<Rightarrow>
          (case scores rt r (teams r g1) of
             Inl e \<Rightarrow> (Inl e, w1)
           | Inr g3 \<Rightarrow>
               (case final_odds rt po 0 (odds_elems r) (metadata br w1 url po g3) of
                  Inl e \<Rightarrow> (Inl e, w1)
                | Inr g5 \<Rightarrow>
                    (case public_percentage br rt r w1 (determine_outcome g5) of
                       (g7, w2) \<Rightarrow> (Inr g7, w2)))))"

subsection \<open>\<^verbatim>\<open>populate_games_into_season\<close> (lines 127 to 292)\<close>

text \<open>Python truth values of an optional text and of an optional integer.\<close>

definition truthy_str :: "string option \<Rightarrow> bool" where
  "truthy_str x = (case x of None \<Rightarrow> False | Some t \<Rightarrow> t \<noteq> [])"

definition truthy_int :: "int option \<Rightarrow> bool" where
  "truthy_int x = (case x of None \<Rightarrow> False | Some i \<Rightarrow> i \<noteq> 0)"

text \<open>The test of line 284.\<close>

definition valid_data :: "game \<Rightarrow> bool" where
  "valid_data game =
     (truthy_str (team_home game) \<and> truthy_str (team_away game)
      \<and> truthy_int (odds_home game) \<and> truthy_int (odds_away game))"

text \<open>The loop over the rows of one page; an exception in a row skips the row.\<close>

fun process_rows ::
  "'w browser \<Rightarrow> runtime \<Rightarrow> string \<Rightarrow> row list \<Rightarrow> season \<Rightarrow> 'w \<Rightarrow> season \<times> 'w" where
  "process_rows br rt url [] season w = (season, w)"
| "process_rows br rt url (r # rest) season w =
     (case parse_row br rt (possible_outcomes season) url w r of
        (Inl e, w') \<Rightarrow> process_rows br rt url rest season w'
      | (Inr game, w') \<Rightarrow>
          process_rows br rt url rest
            (if valid_data game then add_game season game else season) w')"

text \<open>The loop over the URLs of the season; a page that does not load is skipped.\<close>

fun process_urls ::
  "'w browser \<Rightarrow> runtime \<Rightarrow> string list \<Rightarrow> season \<Rightarrow> 'w \<Rightarrow> season \<times> 'w" where
  "process_urls br rt [] season w = (season, w)"
| "process_urls br rt (url # rest) season w =
     (case go_to_link br w url of
        (ok, w') \<Rightarrow>
          if \<not> ok then process_urls br rt rest season w'
          else (case process_rows br rt url (game_rows (get_html_source br w')) season w' of
                  (season', w'') \<Rightarrow> process_urls br rt rest season' w''))"

definition populate_games_into_season ::
  "'w browser \<Rightarrow> runtime \<Rightarrow> 'w \<Rightarrow> season \<Rightarrow> season \<times> 'w" where
  "populate_games_into_season br rt w season = process_urls br rt (urls season) season w"

section \<open>Sample inputs\<close>

text \<open>
  A sample runtime for evaluating the model on concrete pages: it reads unsigned
  decimal literals such as \<^verbatim>\<open>5\<close> and \<^verbatim>\<open>1.91\<close>, a part of what the Python builtins
  accept, and rejects every other text.  A decimal fraction is read as the double nearest
  to it, as \<^verbatim>\<open>float\<close> does.
\<close>

fun parse_digits :: "nat \<Rightarrow> string \<Rightarrow> nat option" where
  "parse_digits acc [] = Some acc"
| "parse_digits acc (c # cs) =
     (if (48::nat) \<le> of_char c \<and> of_char c \<le> (57::nat)
      then parse_digits (10 * acc + (of_char c - 48)) cs
      else None)"

definition sample_int :: "string \<Rightarrow> int option" where
  "sample_int s = (if s = [] then None else map_option int (parse_digits 0 s))"

definition sample_float :: "string \<Rightarrow> double option" where
  "sample_float s =
     (case py_split s ''.'' of
        [a] \<Rightarrow>
          (if a = [] then None
           else map_option (\<lambda>x. round_double (of_nat x)) (parse_digits 0 a))
      | [a, b] \<Rightarrow>
          (if a = [] \<or> b = [] then None
           else (case (parse_digits 0 a, parse_digits 0 b) of
                   (Some x, Some y) \<Rightarrow>
                     Some (round_double (of_nat x + of_nat y / 10 ^ length b))
                 | _ \<Rightarrow> None))
      | _ \<Rightarrow> None)"

definition sample_runtime :: runtime where
  "sample_runtime = \<lparr>py_float = sample_float, py_int = sample_int\<rparr>"

text \<open>
  A season page with two pagination anchors: the anchor of page 2 and the anchor to the
  last page, whose span holds the last-page glyph and whose page index is 5.
\<close>

definition page_2_anchor :: element where
  "page_2_anchor =
     \<lparr>attrib = [''x-page'' \<mapsto> ''2'', ''href'' \<mapsto> ''#/page/2/''],
      elem_text = None, span_text = Some (Some ''2'')\<rparr>"

definition last_page_anchor :: element where
  "last_page_anchor =
     \<lparr>attrib = [''x-page'' \<mapsto> ''5'', ''href'' \<mapsto> ''#/page/5/''],
      elem_text = None, span_text = Some (Some last_page_glyph)\<rparr>"

definition empty_page :: page where
  "empty_page = \<lparr>no_data_div = [], pagination_links = [], find_links = (\<lambda>selector. []),
                  game_rows = [], height_content = []\<rparr>"

definition five_pages :: page where
  "five_pages = empty_page\<lparr>pagination_links := [page_2_anchor, last_page_anchor]\<rparr>"

text \<open>The same anchors without the glyph: the page format changed.\<close>

definition unmarked_pages :: page where
  "unmarked_pages =
     empty_page\<lparr>pagination_links :=
                  [page_2_anchor, last_page_anchor\<lparr>span_text := Some (Some ''5'')\<rparr>]\<rparr>"

text \<open>
  Browsers with a single state that show the given page whatever the link is.  The
  first reports every navigation as a success, the second as a failure.
\<close>

definition showing :: "page \<Rightarrow> unit browser" where
  "showing p = \<lparr>go_to_link = (\<lambda>w link. (True, w)), get_html_source = (\<lambda>w. p),
                wait_percentage = (\<lambda>w. (None, w)),
                strftime_now = (\<lambda>w. ''2025-01-05 12:00:00'')\<rparr>"

definition failing_to_load :: "page \<Rightarrow> unit browser" where
  "failing_to_load p = (showing p)\<lparr>go_to_link := (\<lambda>w link. (False, w))\<rparr>"

definition nhl_results :: string where
  "nhl_results = ''https://www.oddsportal.com/hockey/usa/nhl/results/''"

definition nhl_season :: season where
  "nhl_season = (Season 2 ''2023/2024'')\<lparr>urls := [nhl_results]\<rparr>"

text \<open>
  A league page whose only season link sits inside a container of class
  \<^verbatim>\<open>seasons\<close>: the first and the second selector both match it.
\<close>

definition season_link_2022 :: element where
  "season_link_2022 =
     \<lparr>attrib = [''href'' \<mapsto> ''/hockey/usa/nhl-2022-2023/results/''],
      elem_text = Some ''2022/2023'', span_text = None\<rparr>"

definition league_page :: page where
  \<open>league_page =
     empty_page\<lparr>find_links :=
       (\<lambda>selector. if selector = ''a[href*="/results/"]'' then [season_link_2022]
                   else if selector = ''div[class*="seasons"] a'' then [season_link_2022]
                   else [])\<rparr>\<close>

text \<open>
  A browser whose state is the link it went to last, on a site given as a function from
  links to pages.  Every navigation succeeds and the public percentage reads 62%.
\<close>

definition browsing :: "(string \<Rightarrow> page) \<Rightarrow> string browser" where
  "browsing site = \<lparr>go_to_link = (\<lambda>w link. (True, link)), get_html_source = site,
                    wait_percentage = (\<lambda>w. (Some ''62%'', w)),
                    strftime_now = (\<lambda>w. ''2025-01-05 12:00:00'')\<rparr>"

text \<open>
  A results page with four rows: a finished game, the same row without its event link
  (no average odds, so not complete), the same row with a score whose away part is no
  number (the row raises), and the same row without a score.  Every other link shows a
  detail page with six odds texts.
\<close>

definition nfl_results :: string where
  "nfl_results = ''https://www.oddsportal.com/american-football/usa/nfl/results/''"

definition finished_row :: row where
  "finished_row =
     \<lparr>game_link = Some ''/american-football/usa/nfl/chiefs-eagles-x1/'',
      participant_names = [''Chiefs'', ''Eagles''],
      score_text = Some (''3'' @ en_dash @ ''1''),
      odds_elems = [''1.91'', ''1.91'']\<rparr>"

definition unlinked_row :: row where
  "unlinked_row = finished_row\<lparr>game_link := None\<rparr>"

definition garbled_row :: row where
  "garbled_row = finished_row\<lparr>score_text := Some (''7'' @ en_dash @ ''x'')\<rparr>"

definition unscored_row :: row where
  "unscored_row = finished_row\<lparr>score_text := None\<rparr>"

definition nfl_site :: "string \<Rightarrow> page" where
  "nfl_site link =
     (if link = nfl_results
      then empty_page\<lparr>game_rows := [finished_row, unlinked_row, garbled_row, unscored_row]\<rparr>
      else empty_page\<lparr>height_content :=
             [''1.91'', ''1.91'', ''15.0'', ''1.85'', ''1.95'', ''14.0'']\<rparr>)"

definition nfl_season :: season where
  "nfl_season = (Season 2 ''2024/2025'')\<lparr>urls := [nfl_results]\<rparr>"

definition chiefs_eagles :: game where
  "chiefs_eagles =
     \<lparr>retrieval_url = Some nfl_results, retrieval_datetime = Some ''2025-01-05 12:00:00'',
      game_url = Some (base_url @ ''/american-football/usa/nfl/chiefs-eagles-x1/#home-away;1''),
      num_possible_outcomes = Some 2, team_home = Some ''Chiefs'', team_away = Some ''Eagles'',
      score_home = Some 3, score_away = Some 1, outcome = HOME,
      odds_home = Some (- 110), odds_away = Some (- 110), odds_draw = None,
      final_odds_home = Some (- 110), final_odds_away = Some (- 110), final_odds_draw = None,
      pub_percent = Some (Finite 62)\<rparr>"

definition chiefs_eagles_unscored :: game where
  "chiefs_eagles_unscored =
     chiefs_eagles\<lparr>score_home := None, score_away := None, outcome := UNKNOWN\<rparr>"

section \<open>Properties of the odds normalization\<close>

text \<open>The overflow threshold as a numeral, for evaluation.\<close>

lemma overflow_threshold_code [code]:
  "overflow_threshold =
     179769313486231590772930519078902473361797697894230657273430081157732675805500963132708477322407536021120113879871393357658789768814416622492847430639474124377767893424865485276302219601246094119453082952085005768838150682342462881473913110540827237163350510684586298239947245938479716304835356329624224137216"
  by (simp add: overflow_threshold_def)

subsection \<open>Powers of two and exponents\<close>

lemma pow2_powi: "pow2 e = 2 powi e"
  by (simp add: pow2_def power_int_def inverse_eq_divide power_one_over)

lemma pow2_pos: "0 < pow2 e"
  by (simp add: pow2_powi)

lemma pow2_add: "pow2 (a + b) = pow2 a * pow2 b"
  by (simp add: pow2_powi power_int_add)

lemma pow2_diff: "pow2 (a - b) = pow2 a / pow2 b"
  by (simp add: pow2_powi power_int_diff)

lemma pow2_mono: "a \<le> b \<Longrightarrow> pow2 a \<le> pow2 b"
  by (simp add: pow2_powi power_int_increasing)

lemma pow2_strict_mono: "a < b \<Longrightarrow> pow2 a < pow2 b"
  by (simp add: pow2_powi power_int_strict_increasing)

lemma pow2_le_iff: "pow2 a \<le> pow2 b \<longleftrightarrow> a \<le> b"
  using pow2_mono [of a b] pow2_strict_mono [of b a] by (auto simp: not_le [symmetric])

lemma pow2_less_iff: "pow2 a < pow2 b \<longleftrightarrow> a < b"
  using pow2_mono [of b a] pow2_strict_mono [of a b] by (auto simp: not_less [symmetric])

lemma pow2_nat: "0 \<le> e \<Longrightarrow> pow2 e = of_int (2 ^ nat e)"
  by (simp add: pow2_def)

lemma pow2_0: "pow2 0 = 1"
  by (simp add: pow2_def)

lemma ilog2_bounds:
  assumes "0 < x"
  shows "pow2 (ilog2 x) \<le> x \<and> x < pow2 (ilog2 x + 1)"
proof -
  obtain p q where pq: "quotient_of x = (p, q)" by fastforce
  have q: "0 < q" using pq by (rule quotient_of_denom_pos)
  have x: "x = of_int p / of_int q" using pq by (rule quotient_of_div)
  have p: "0 < p" using assms q x by (simp add: zero_less_divide_iff)
  have bp: "1 \<le> bitlen p" and bq: "1 \<le> bitlen q"
    using p q by (simp_all add: bitlen_alt_def)
  have lp: "pow2 (bitlen p - 1) \<le> of_int p" and up: "of_int p < pow2 (bitlen p)"
    using bitlen_bounds [OF p] bp by (simp_all add: pow2_nat del: of_int_power of_int_numeral)
  have lq: "pow2 (bitlen q - 1) \<le> of_int q" and uq: "of_int q < pow2 (bitlen q)"
    using bitlen_bounds [OF q] bq by (simp_all add: pow2_nat del: of_int_power of_int_numeral)
  have qpos: "(0::rat) < of_int q" using q by simp
  have lower: "pow2 (bitlen p - bitlen q - 1) < x"
  proof -
    have "pow2 (bitlen p - bitlen q - 1) * of_int q < pow2 (bitlen p - bitlen q - 1) * pow2 (bitlen q)"
      using uq pow2_pos by simp
    also have "\<dots> = pow2 (bitlen p - 1)"
      by (simp add: pow2_add [symmetric])
    also have "\<dots> \<le> of_int p" by (rule lp)
    finally show ?thesis using qpos by (simp add: x pos_less_divide_eq)
  qed
  have upper: "x < pow2 (bitlen p - bitlen q + 1)"
  proof -
    have "of_int p < pow2 (bitlen p)" by (rule up)
    also have "\<dots> = pow2 (bitlen p - bitlen q + 1) * pow2 (bitlen q - 1)"
      by (simp add: pow2_add [symmetric])
    also have "\<dots> \<le> pow2 (bitlen p - bitlen q + 1) * of_int q"
      using lq pow2_pos by simp
    finally show ?thesis using qpos by (simp add: x pos_divide_less_eq)
  qed
  show ?thesis
    using lower upper by (simp add: ilog2_def pq Let_def not_le)
qed

lemma ilog2_ge: "0 < x \<Longrightarrow> pow2 k \<le> x \<Longrightarrow> k \<le> ilog2 x"
proof -
  assume "0 < x" "pow2 k \<le> x"
  then have "pow2 k < pow2 (ilog2 x + 1)" using ilog2_bounds [of x] by simp
  then show ?thesis by (simp add: pow2_less_iff)
qed

lemma ilog2_less: "0 < x \<Longrightarrow> x < pow2 k \<Longrightarrow> ilog2 x < k"
proof -
  assume "0 < x" "x < pow2 k"
  then have "pow2 (ilog2 x) < pow2 k" using ilog2_bounds [of x] by simp
  then show ?thesis by (simp add: pow2_less_iff)
qed

lemma ilog2_unique: "pow2 k \<le> x \<Longrightarrow> x < pow2 (k + 1) \<Longrightarrow> ilog2 x = k"
proof -
  assume a: "pow2 k \<le> x" "x < pow2 (k + 1)"
  then have "0 < x" using pow2_pos [of k] by simp
  then show ?thesis using ilog2_ge [of x k] ilog2_less [of x "k + 1"] a by simp
qed

subsection \<open>Rounding to an integer and to a double\<close>

lemma py_round_ge: "of_int k \<le> t \<Longrightarrow> k \<le> py_round t"
proof -
  assume "of_int k \<le> t"
  then have "k \<le> \<lfloor>t\<rfloor>" by (simp add: le_floor_iff)
  then show ?thesis by (simp add: py_round_def Let_def)
qed

lemma py_round_le: "t \<le> of_int k \<Longrightarrow> py_round t \<le> k"
proof (cases "t = of_int k")
  case True
  then show ?thesis by (simp add: py_round_def Let_def)
next
  case False
  assume "t \<le> of_int k"
  with False have "t < of_int k" by simp
  then have "\<lfloor>t\<rfloor> < k" by (simp add: floor_less_iff)
  then show ?thesis by (simp add: py_round_def Let_def)
qed


lemma py_round_of_int: "py_round (of_int k) = k"
  by (simp add: py_round_def Let_def)

lemma py_round_minus: "py_round (- t) = - py_round t"
proof (cases "of_int \<lfloor>t\<rfloor> = t")
  case True
  define k where "k = \<lfloor>t\<rfloor>"
  have "t = of_int k" unfolding k_def by (rule True [symmetric])
  then have "py_round (- t) = py_round (of_int (- k))" "py_round t = py_round (of_int k)"
    by simp_all
  then show ?thesis by (simp only: py_round_of_int)
next
  case False
  have b: "of_int \<lfloor>t\<rfloor> < t" "t < of_int \<lfloor>t\<rfloor> + 1" using False by linarith+
  have "\<lfloor>- t\<rfloor> = - \<lfloor>t\<rfloor> - 1"
    by (rule floor_unique) (use b in simp_all)
  then show ?thesis using b by (auto simp: py_round_def Let_def)
qed

lemma round_double_unfold:
  "x \<noteq> 0 \<Longrightarrow> round_double x =
     (if overflow_threshold \<le> \<bar>of_int (py_round (x / pow2 (exponent x - 52))) * pow2 (exponent x - 52)\<bar>
      then (if 0 < x then PInf else NInf)
      else Finite (of_int (py_round (x / pow2 (exponent x - 52))) * pow2 (exponent x - 52)))"
  by (simp add: round_double_def Let_def)

lemma overflow_threshold_pow2: "overflow_threshold = pow2 1024"
  by (simp add: overflow_threshold_def pow2_def)

lemma round_double_minus:
  "round_double (- x) = (case round_double x of Finite y \<Rightarrow> Finite (- y) | PInf \<Rightarrow> NInf
                          | NInf \<Rightarrow> PInf | NaN \<Rightarrow> NaN)"
proof (cases "x = 0")
  case True
  then show ?thesis by (simp add: round_double_def)
next
  case False
  have e: "exponent (- x) = exponent x" by (simp add: exponent_def)
  show ?thesis
    using False by (simp add: round_double_unfold e py_round_minus)
qed

text \<open>Rounding a positive value between two powers of two.\<close>

lemma round_double_pos_upper:
  assumes x: "0 < x" "x \<le> pow2 k" and k: "- 1074 \<le> k" "k \<le> 1023"
  shows "\<exists>y. round_double x = Finite y \<and> 0 \<le> y \<and> y \<le> pow2 k"
proof -
  let ?q = "pow2 (exponent x - 52)"
  let ?m = "py_round (x / ?q)"
  have q: "0 < ?q" by (rule pow2_pos)
  have "ilog2 x \<le> k"
  proof (cases "x = pow2 k")
    case True
    then show ?thesis using ilog2_unique [of k x] pow2_strict_mono [of k "k + 1"] by simp
  next
    case False
    then have "x < pow2 k" using x by simp
    then show ?thesis using ilog2_less [of x k] x by simp
  qed
  then have e: "exponent x \<le> k + 52" using k x by (simp add: exponent_def)
  then have n: "0 \<le> k - exponent x + 52" by simp
  have "x / ?q \<le> pow2 k / ?q" using x q by (simp add: divide_right_mono)
  also have "\<dots> = pow2 (k - exponent x + 52)" by (simp add: pow2_diff [symmetric] algebra_simps)
  also have "\<dots> = of_int (2 ^ nat (k - exponent x + 52))" using n by (rule pow2_nat)
  finally have "?m \<le> 2 ^ nat (k - exponent x + 52)" by (rule py_round_le)
  then have "(of_int ?m :: rat) \<le> of_int (2 ^ nat (k - exponent x + 52))" by (simp only: of_int_le_iff)
  then have "of_int ?m \<le> pow2 (k - exponent x + 52)" using n by (simp only: pow2_nat)
  then have "of_int ?m * ?q \<le> pow2 (k - exponent x + 52) * ?q" using q by (simp add: mult_right_mono)
  also have "\<dots> = pow2 k" by (simp add: pow2_add [symmetric])
  finally have u: "of_int ?m * ?q \<le> pow2 k" .
  have "0 \<le> x / ?q" using x q by simp
  then have "0 \<le> ?m" using py_round_ge [of 0 "x / ?q"] by simp
  then have l: "0 \<le> of_int ?m * ?q" using q by simp
  have "pow2 k < overflow_threshold"
    using k by (simp add: overflow_threshold_pow2 pow2_less_iff)
  then have "\<not> overflow_threshold \<le> \<bar>of_int ?m * ?q\<bar>" using u l by simp
  then show ?thesis using x u l by (simp add: round_double_unfold)
qed

lemma round_double_pos_lower:
  assumes x: "pow2 k \<le> x" and k: "- 1074 \<le> k" and y: "round_double x = Finite y"
  shows "pow2 k \<le> y"
proof -
  let ?q = "pow2 (exponent x - 52)"
  let ?m = "py_round (x / ?q)"
  have q: "0 < ?q" by (rule pow2_pos)
  have xp: "0 < x" using x pow2_pos [of k] by simp
  then have yv: "y = of_int ?m * ?q"
    using y by (simp add: round_double_unfold split: if_splits)
  show ?thesis
  proof (cases "exponent x \<le> k + 52")
    case True
    then have n: "0 \<le> k - exponent x + 52" by simp
    have "pow2 k / ?q \<le> x / ?q" using x q by (simp add: divide_right_mono)
    moreover have "pow2 k / ?q = pow2 (k - exponent x + 52)"
      by (simp add: pow2_diff [symmetric] algebra_simps)
    moreover have "pow2 (k - exponent x + 52) = of_int (2 ^ nat (k - exponent x + 52))"
      using n by (rule pow2_nat)
    ultimately have "of_int (2 ^ nat (k - exponent x + 52)) \<le> x / ?q" by simp
    then have "2 ^ nat (k - exponent x + 52) \<le> ?m" by (rule py_round_ge)
    then have "(of_int (2 ^ nat (k - exponent x + 52)) :: rat) \<le> of_int ?m" by (simp only: of_int_le_iff)
    then have "pow2 (k - exponent x + 52) \<le> of_int ?m" using n by (simp only: pow2_nat)
    then have "pow2 (k - exponent x + 52) * ?q \<le> of_int ?m * ?q" using q by (simp add: mult_right_mono)
    moreover have "pow2 (k - exponent x + 52) * ?q = pow2 k" by (simp add: pow2_add [symmetric])
    ultimately show ?thesis by (simp add: yv)
  next
    case False
    then have big: "k + 52 < exponent x" by simp
    then have ex: "exponent x = ilog2 x" using k xp by (simp add: exponent_def max_def split: if_splits)
    have "pow2 (exponent x) \<le> x" using ilog2_bounds [OF xp] ex by simp
    then have "pow2 (exponent x) / ?q \<le> x / ?q" using q by (simp add: divide_right_mono)
    moreover have "pow2 (exponent x) / ?q = pow2 52" by (simp add: pow2_diff [symmetric])
    moreover have p52: "pow2 52 = of_int 4503599627370496" by (simp add: pow2_def)
    ultimately have "of_int 4503599627370496 \<le> x / ?q" by simp
    then have "4503599627370496 \<le> ?m" by (rule py_round_ge)
    then have "(of_int 4503599627370496 :: rat) \<le> of_int ?m" by (simp only: of_int_le_iff)
    then have "pow2 52 \<le> of_int ?m" by (simp only: p52)
    then have "pow2 52 * ?q \<le> of_int ?m * ?q" using q by (simp add: mult_right_mono)
    moreover have "pow2 52 * ?q = pow2 (exponent x)" by (simp add: pow2_add [symmetric])
    moreover have "pow2 k \<le> pow2 (exponent x)" using big by (simp add: pow2_le_iff)
    ultimately show ?thesis by (simp add: yv)
  qed
qed

lemma round_double_not_NaN: "round_double x \<noteq> NaN"
  by (simp add: round_double_def Let_def)


lemma round_double_neg_lower:
  assumes x: "x \<le> - pow2 k" and k: "- 1074 \<le> k"
  shows "round_double x = NInf \<or> (\<exists>y. round_double x = Finite y \<and> y \<le> - pow2 k)"
proof (cases "round_double (- x)")
  case (Finite y)
  have "pow2 k \<le> - x" using x by simp
  then have "pow2 k \<le> y" using k Finite by (rule round_double_pos_lower)
  then show ?thesis using round_double_minus [of "- x"] Finite by simp
next
  case PInf
  then show ?thesis using round_double_minus [of "- x"] by simp
next
  case NInf
  have "0 < - x" using x pow2_pos [of k] by simp
  then show ?thesis using NInf by (simp add: round_double_unfold split: if_splits)
next
  case NaN
  then show ?thesis by (simp add: round_double_not_NaN)
qed


lemma double_below_one:
  assumes d: "is_double x" and x: "x < 1"
  shows "x - 1 \<le> - pow2 (- 53)"
proof (cases "x < 1 / 2")
  case True
  then show ?thesis by (simp add: pow2_def)
next
  case False
  then have "ilog2 \<bar>x\<bar> = - 1" using x by (intro ilog2_unique) (simp_all add: pow2_def)
  then have e: "exponent x = - 1" by (simp add: exponent_def)
  have q: "pow2 (- 53) = 1 / 9007199254740992" by (simp add: pow2_def)
  define m where "m = py_round (x / pow2 (- 53))"
  have "x = of_int m * pow2 (- 53)"
    using d False by (simp add: is_double_def round_double_unfold e m_def split: if_splits)
  then have xm: "x = of_int m / 9007199254740992" by (simp add: q)
  then have "(of_int m :: rat) < of_int 9007199254740992" using x by simp
  then have "m < 9007199254740992" by (simp only: of_int_less_iff)
  then have "m \<le> 9007199254740992 - 1" by simp
  then have "(of_int m :: rat) \<le> of_int (9007199254740992 - 1)" by (simp only: of_int_le_iff)
  then show ?thesis by (simp add: xm q)
qed


lemma below_one_branch:
  assumes d: "is_double x" and x: "x < 1"
  shows "\<exists>v. fl_div (Finite (- 100)) (fl_sub (Finite x) (Finite 1)) = Inr (Finite v) \<and> 0 \<le> v"
proof -
  have l: "x - 1 \<le> - pow2 (- 53)" using d x by (rule double_below_one)
  from round_double_neg_lower [OF l]
  consider "round_double (x - 1) = NInf"
    | y where "round_double (x - 1) = Finite y" "y \<le> - pow2 (- 53)" by auto
  then show ?thesis
  proof cases
    case 1
    then show ?thesis by simp
  next
    case 2
    have yneg: "y < 0" using 2(2) pow2_pos [of "- 53"] by simp
    define z where "z = - y"
    have zpos: "0 < z" using yneg by (simp add: z_def)
    have "1 \<le> 9007199254740992 * z" using 2(2) by (simp add: pow2_def z_def)
    then have "100 / z \<le> 100 * 9007199254740992"
      using zpos by (simp add: divide_le_eq algebra_simps)
    moreover have "- 100 / y = 100 / z" by (simp add: z_def)
    ultimately have "- 100 / y \<le> pow2 60" by (simp add: pow2_def)
    moreover have "0 < - 100 / y" using yneg by (simp add: zero_less_divide_iff)
    ultimately obtain v where "round_double (- 100 / y) = Finite v" "0 \<le> v"
      using round_double_pos_upper [of "- 100 / y" 60] by auto
    then show ?thesis using 2(1) yneg by simp
  qed
qed



subsection \<open>The claims on the normalization\<close>



text \<open>
  C2 as stated (every \<open>d \<ge> 2.00\<close> gives an integer) does not hold: on the double
  \<open>2^1023\<close> the product overflows to infinity and \<open>round\<close> raises OverflowError.
\<close>

theorem normalize_odds_overflow:
  "is_double (pow2 1023) \<and> 2 \<le> pow2 1023
   \<and> normalize_odds (Finite (pow2 1023)) = Inl OverflowError"
  by code_simp

text \<open>
  C3, as the code has it: at the even-money boundary the decimal odds value 2.00 is
  normalized to 100 (the first branch applies, \<open>round((2.0 - 1) * 100)\<close>).
\<close>

theorem normalize_odds_even_money: "normalize_odds (Finite 2) = Inr 100"
  by code_simp

text \<open>C3 as stated (the result would be 0) does not hold.\<close>

theorem normalize_odds_even_money_not_zero: "normalize_odds (Finite 2) \<noteq> Inr 0"
  by code_simp

text \<open>
  C4 as stated (every \<open>d \<le> 1.0\<close> fails) does not hold: the decimal odds value 0.5 is
  normalized to the integer 200.
\<close>

theorem normalize_odds_below_one_returns:
  "is_double (1 / 2) \<and> (1 / 2 :: rat) \<le> 1 \<and> normalize_odds (Finite (1 / 2)) = Inr 200"
  by code_simp

text \<open>
  C4, as the code has it: at \<open>d = 1.0\<close> the normalization raises ZeroDivisionError; at
  NaN, and on a text that \<^verbatim>\<open>float\<close> cannot parse, ValueError is raised; for every
  double \<open>d < 1.0\<close>, and for minus infinity, nothing is raised and the result is the
  integer \<open>round(-100 / (d - 1))\<close>, which is not negative.
\<close>

theorem normalize_odds_failure:
  "normalize_odds (Finite 1) = Inl ZeroDivisionError
   \<and> normalize_odds NaN = Inl ValueError
   \<and> (py_float rt t = None \<longrightarrow> odds_of_text rt t = Inl ValueError)
   \<and> (is_double x \<and> x < 1
        \<longrightarrow> (\<exists>v. fl_div (Finite (- 100)) (fl_sub (Finite x) (Finite 1)) = Inr (Finite v)
               \<and> normalize_odds (Finite x) = Inr (py_round v) \<and> 0 \<le> py_round v))
   \<and> normalize_odds NInf = Inr 0"
proof (intro conjI impI)
  show "normalize_odds (Finite 1) = Inl ZeroDivisionError"
    by (simp add: normalize_odds_def round_double_def)
  show "normalize_odds NaN = Inl ValueError"
    by (simp add: normalize_odds_def float_round_def)
  show "normalize_odds NInf = Inr 0"
    by (simp add: normalize_odds_def float_round_def py_round_def)
next
  assume "py_float rt t = None"
  then show "odds_of_text rt t = Inl ValueError" by (simp add: odds_of_text_def)
next
  assume a: "is_double x \<and> x < 1"
  then obtain v where v: "fl_div (Finite (- 100)) (fl_sub (Finite x) (Finite 1)) = Inr (Finite v)"
      "0 \<le> v"
    using below_one_branch [of x] by blast
  have "0 \<le> py_round v" using v(2) py_round_ge [of 0 v] by simp
  moreover have "normalize_odds (Finite x) = Inr (py_round v)"
    using a v(1) by (simp add: normalize_odds_def float_round_def)
  ultimately show "\<exists>v. fl_div (Finite (- 100)) (fl_sub (Finite x) (Finite 1)) = Inr (Finite v)
               \<and> normalize_odds (Finite x) = Inr (py_round v) \<and> 0 \<le> py_round v"
    using v(1) by blast
qed

theorem normalize_odds_failure_witness:
  "normalize_odds (Finite 1) = Inl ZeroDivisionError
   \<and> py_float sample_runtime ''n/a'' = None \<and> odds_of_text sample_runtime ''n/a'' = Inl ValueError
   \<and> is_double 0 \<and> (0::rat) < 1 \<and> normalize_odds (Finite 0) = Inr 100
   \<and> round_double (- 6 / 10) = Finite (- 5404319552844595 / 9007199254740992)
   \<and> is_double (- 5404319552844595 / 9007199254740992)
   \<and> normalize_odds (Finite (- 5404319552844595 / 9007199254740992)) = Inr 62"
proof -
  have p: "py_float sample_runtime ''n/a'' = None" by code_simp
  have d0: "is_double 0" by code_simp
  have d6: "is_double (- 5404319552844595 / 9007199254740992)" by code_simp
  have r: "round_double (- 6 / 10) = Finite (- 5404319552844595 / 9007199254740992)" by code_simp
  have n: "normalize_odds (Finite 0) = Inr 100"
    "normalize_odds (Finite (- 5404319552844595 / 9007199254740992)) = Inr 62"
    by code_simp+
  show ?thesis
    using normalize_odds_failure [of sample_runtime "''n/a''" 0]
      normalize_odds_failure [of sample_runtime "''n/a''" "- 5404319552844595 / 9007199254740992"]
      p d0 d6 r n
    by simp
qed

section \<open>Properties of the pagination resolver\<close>

lemma find_last_page_found:
  "find has_last_page_glyph ls = Some a \<Longrightarrow> attrib a ''x-page'' = Some xp \<Longrightarrow>
   py_int rt xp = Some n \<Longrightarrow> attrib a ''href'' = Some h \<Longrightarrow>
   find_last_page rt u ls = Inr (Some (n, u @ h))"
  by (induction ls) (auto split: if_splits)

lemma find_last_page_none:
  "\<forall>a\<in>set ls. \<not> has_last_page_glyph a \<Longrightarrow> find_last_page rt u ls = Inr None"
  by (induction ls) auto

lemma nth_page_urls:
  assumes "2 \<le> i" "i < n"
  shows "(u # map f [2 .. n - 1] @ [l]) ! nat (i - 1) = f i"
proof -
  have k: "nat (i - 1) = Suc (nat (i - 2))" using assms by simp
  have len: "nat (i - 2) < length [2 .. n - 1]" using assms by simp
  have "[2 .. n - 1] ! nat (i - 2) = i" using assms by (simp add: nth_upto)
  then show ?thesis using len by (simp add: k nth_append)
qed

lemma last_page_urls:
  assumes "2 \<le> n"
  shows "(u # map f [2 .. n - 1] @ [l]) ! nat (n - 1) = l"
proof -
  have k: "nat (n - 1) = Suc (nat (n - 2))" using assms by simp
  have len: "length (map f [2 .. n - 1]) = nat (n - 2)" using assms by simp
  show ?thesis unfolding k by (simp add: nth_append len del: length_map)
qed

text \<open>
  C1: a season with the single URL \<open>u0\<close>, whose page shows no "No data available"
  message and more than one pagination anchor, and whose glyph-bearing anchor (the first
  one met from the end) reports the page index \<open>n \<ge> 2\<close> and the link \<open>h\<close>.  The
  resolver returns with \<open>season.urls\<close> of length \<open>n\<close>: the original URL first, then the
  URLs synthesized from the last page's URL for the indices from 2 to \<open>n - 1\<close> in
  ascending order, then the last page's URL \<open>u0 + h\<close>.  Nothing else of the season
  changes.  (With the message, or with at most one anchor, the resolver returns at line
  173 or 178 before it reads any anchor.)
\<close>

theorem fill_in_urls:
  assumes u: "urls season = [u0]"
    and nav: "go_to_link br w u0 = (ok, w')"
    and nd: "no_data_div (get_html_source br w') \<noteq> ''No data available''"
    and many: "1 < length (pagination_links (get_html_source br w'))"
    and a: "find has_last_page_glyph (rev (pagination_links (get_html_source br w'))) = Some a"
    and xp: "attrib a ''x-page'' = Some xp"
    and n: "py_int rt xp = Some n"
    and h: "attrib a ''href'' = Some h"
    and n2: "2 \<le> n"
  shows "\<exists>us. fill_in_season_pagination_links br rt w season = (Inr (season\<lparr>urls := us\<rparr>), w')
      \<and> us = u0 # map (page_url (u0 @ h) n) [2 .. n - 1] @ [u0 @ h]
      \<and> int (length us) = n
      \<and> us ! 0 = u0
      \<and> (\<forall>i. 2 \<le> i \<and> i < n \<longrightarrow> us ! nat (i - 1) = page_url (u0 @ h) n i)
      \<and> us ! nat (n - 1) = u0 @ h"
proof -
  let ?us = "u0 # map (page_url (u0 @ h) n) [2 .. n - 1] @ [u0 @ h]"
  have f: "find_last_page rt u0 (rev (pagination_links (get_html_source br w')))
             = Inr (Some (n, u0 @ h))"
    using a xp n h by (rule find_last_page_found)
  have r: "fill_in_season_pagination_links br rt w season = (Inr (season\<lparr>urls := ?us\<rparr>), w')"
    using u nav nd many n2 by (simp add: fill_in_season_pagination_links_def f Let_def)
  have l: "int (length ?us) = n" using n2 by simp
  have p: "\<forall>i. 2 \<le> i \<and> i < n \<longrightarrow> ?us ! nat (i - 1) = page_url (u0 @ h) n i"
    using nth_page_urls [of _ n u0 "page_url (u0 @ h) n" "u0 @ h"] by blast
  have e: "?us ! nat (n - 1) = u0 @ h" using n2 by (rule last_page_urls)
  show ?thesis using r l p e by (intro exI [of _ ?us] conjI) simp_all
qed

theorem fill_in_urls_witness:
  "fill_in_season_pagination_links (showing five_pages) sample_runtime () nhl_season
     = (Inr (nhl_season\<lparr>urls :=
          [nhl_results, nhl_results @ ''#/page/2/'', nhl_results @ ''#/page/3/'',
           nhl_results @ ''#/page/4/'', nhl_results @ ''#/page/5/'']\<rparr>), ())"
proof -
  have u: "urls nhl_season = [nhl_results]" by code_simp
  have nav: "go_to_link (showing five_pages) () nhl_results = (True, ())" by code_simp
  have nd: "no_data_div (get_html_source (showing five_pages) ()) \<noteq> ''No data available''"
    by code_simp
  have many: "1 < length (pagination_links (get_html_source (showing five_pages) ()))"
    by code_simp
  have a: "find has_last_page_glyph (rev (pagination_links (get_html_source (showing five_pages) ())))
             = Some last_page_anchor"
  proof -
    have "has_last_page_glyph last_page_anchor" by code_simp
    then show ?thesis by (simp add: showing_def five_pages_def)
  qed
  have xp: "attrib last_page_anchor ''x-page'' = Some ''5''" by (simp add: last_page_anchor_def)
  have n: "py_int sample_runtime ''5'' = Some 5" by code_simp
  have h: "attrib last_page_anchor ''href'' = Some ''#/page/5/''"
    by (simp add: last_page_anchor_def)
  have n2: "(2::int) \<le> 5" by simp
  have p: "page_url (nhl_results @ ''#/page/5/'') 5 2 = nhl_results @ ''#/page/2/''"
    "page_url (nhl_results @ ''#/page/5/'') 5 3 = nhl_results @ ''#/page/3/''"
    "page_url (nhl_results @ ''#/page/5/'') 5 4 = nhl_results @ ''#/page/4/''"
    by code_simp+
  from fill_in_urls [OF u nav nd many a xp n h n2] show ?thesis
    by (auto simp: p)
qed

text \<open>
  C7: on a season page with more than one pagination anchor (and no "No data
  available" message), where no anchor's span text contains the last-page glyph, the
  resolver raises RuntimeError.  It has not appended to \<open>season.urls\<close> before.  (With
  the message the resolver returns at line 173, before it looks for anchors.)
\<close>

theorem fill_in_no_marker:
  assumes u: "urls season = u0 # rest"
    and nav: "go_to_link br w u0 = (ok, w')"
    and nd: "no_data_div (get_html_source br w') \<noteq> ''No data available''"
    and many: "1 < length (pagination_links (get_html_source br w'))"
    and none: "\<forall>a \<in> set (pagination_links (get_html_source br w')).
                 \<forall>t. span_text a = Some (Some t) \<longrightarrow> \<not> contains last_page_glyph t"
  shows "fill_in_season_pagination_links br rt w season = (Inl RuntimeError, w')"
proof -
  have "\<forall>a \<in> set (rev (pagination_links (get_html_source br w'))). \<not> has_last_page_glyph a"
    using none by (auto simp: has_last_page_glyph_def split: option.splits)
  then have "find_last_page rt u0 (rev (pagination_links (get_html_source br w'))) = Inr None"
    by (rule find_last_page_none)
  then show ?thesis
    using u nav nd many by (simp add: fill_in_season_pagination_links_def Let_def)
qed

theorem fill_in_no_marker_witness:
  "fill_in_season_pagination_links (showing unmarked_pages) sample_runtime () nhl_season
     = (Inl RuntimeError, ())"
proof -
  have u: "urls nhl_season = nhl_results # []" by code_simp
  have nav: "go_to_link (showing unmarked_pages) () nhl_results = (True, ())" by code_simp
  have nd: "no_data_div (get_html_source (showing unmarked_pages) ()) \<noteq> ''No data available''"
    by code_simp
  have many: "1 < length (pagination_links (get_html_source (showing unmarked_pages) ()))"
    by code_simp
  have src: "pagination_links (get_html_source (showing unmarked_pages) ())
      = [page_2_anchor, last_page_anchor\<lparr>span_text := Some (Some ''5'')\<rparr>]"
    by (simp add: showing_def unmarked_pages_def)
  have g2: "\<not> contains last_page_glyph ''2''" by code_simp
  have g5: "\<not> contains last_page_glyph ''5''" by code_simp
  have none: "\<forall>a \<in> set (pagination_links (get_html_source (showing unmarked_pages) ())).
                 \<forall>t. span_text a = Some (Some t) \<longrightarrow> \<not> contains last_page_glyph t"
    using g2 g5 by (simp add: src page_2_anchor_def)
  from fill_in_no_marker [OF u nav nd many none] show ?thesis .
qed

text \<open>
  C6: the claim is that a failed load of the season's first URL leaves \<open>season.urls\<close>
  unchanged.  The code discards the result of \<^verbatim>\<open>go_to_link\<close>: with a browser that
  reports the failure while its page source shows pagination anchors, the resolver
  appends four URLs.
\<close>

theorem fill_in_after_failed_load:
  "fst (go_to_link (failing_to_load five_pages) () nhl_results) = False
   \<and> fill_in_season_pagination_links (failing_to_load five_pages) sample_runtime () nhl_season
     = (Inr (nhl_season\<lparr>urls :=
          [nhl_results, nhl_results @ ''#/page/2/'', nhl_results @ ''#/page/3/'',
           nhl_results @ ''#/page/4/'', nhl_results @ ''#/page/5/'']\<rparr>), ())"
  by code_simp

section \<open>Properties of the link discovery\<close>

text \<open>
  C5: the claim is that only the matches of the first selector with any match become
  seasons.  The loop over the selectors does not stop: on a league page whose one season
  link is matched by the first and by the second selector, the link becomes two
  seasons, the second one from the second selector.
\<close>

theorem get_seasons_merges_selectors:
  "get_seasons_for_league (showing league_page) 2 () nhl_results =
     (Inr [(Season 2 ''2022/2023'')\<lparr>urls := [''/hockey/usa/nhl-2022-2023/results/'']\<rparr>,
           (Season 2 ''2022/2023'')\<lparr>urls := [''/hockey/usa/nhl-2022-2023/results/'']\<rparr>], ())"
  by code_simp

section \<open>Properties of the game record assembler\<close>

subsection \<open>What each step leaves alone\<close>

lemma home_away_odds_keeps:
  "home_away_odds rt es g = Raised e g' \<or> home_away_odds rt es g = Done g' \<Longrightarrow>
   score_home g' = score_home g \<and> score_away g' = score_away g \<and> outcome g' = outcome g"
  by (auto simp: home_away_odds_def split: if_splits sum.splits)

lemma draw_odds_keeps:
  "draw_odds rt po es g = Raised e g' \<or> draw_odds rt po es g = Done g' \<Longrightarrow>
   score_home g' = score_home g \<and> score_away g' = score_away g \<and> outcome g' = outcome g"
  by (auto simp: draw_odds_def split: if_splits sum.splits)

lemma average_odds_keeps:
  "score_home (average_odds rt po ts g) = score_home g
   \<and> score_away (average_odds rt po ts g) = score_away g
   \<and> outcome (average_odds rt po ts g) = outcome g"
proof (cases "home_away_odds rt (average_odds_slice ts) g")
  case (Raised e g')
  then show ?thesis
    using home_away_odds_keeps [of rt "average_odds_slice ts" g e g']
    by (simp add: average_odds_def)
next
  case (Done g')
  note d = this
  have k: "score_home g' = score_home g \<and> score_away g' = score_away g \<and> outcome g' = outcome g"
    using home_away_odds_keeps [of rt "average_odds_slice ts" g _ g'] d by simp
  show ?thesis
  proof (cases "draw_odds rt po (average_odds_slice ts) g'")
    case (Raised e g'')
    then show ?thesis
      using draw_odds_keeps [of rt po "average_odds_slice ts" g' e g''] d k
      by (simp add: average_odds_def)
  next
    case (Done g'')
    then show ?thesis
      using draw_odds_keeps [of rt po "average_odds_slice ts" g' _ g''] d k
      by (simp add: average_odds_def)
  qed
qed

lemma detail_odds_keeps:
  "detail_odds br rt po r w g = (g', w') \<Longrightarrow>
   score_home g' = score_home g \<and> score_away g' = score_away g \<and> outcome g' = outcome g"
  by (auto simp: detail_odds_def Let_def average_odds_keeps split: option.splits if_splits prod.splits)

lemma teams_keeps:
  "score_home (teams r g) = score_home g \<and> score_away (teams r g) = score_away g
   \<and> outcome (teams r g) = outcome g"
  by (simp add: teams_def)

lemma scores_result:
  "scores rt r g = Inr g' \<Longrightarrow>
   outcome g' = outcome g
   \<and> ((score_home g' = score_home g \<and> score_away g' = score_away g)
      \<or> (\<exists>h a. score_home g' = Some h \<and> score_away g' = Some a))"
  by (auto simp: scores_def Let_def split: option.splits if_splits)

lemma metadata_keeps:
  "score_home (metadata br w url po g) = score_home g
   \<and> score_away (metadata br w url po g) = score_away g
   \<and> outcome (metadata br w url po g) = outcome g"
  by (simp add: metadata_def)

lemma final_odds_keeps:
  "final_odds rt po i ts g = Inr g' \<Longrightarrow>
   score_home g' = score_home g \<and> score_away g' = score_away g \<and> outcome g' = outcome g"
proof (induction ts arbitrary: i g)
  case Nil
  then show ?case by simp
next
  case (Cons t ts)
  then show ?case by (fastforce split: sum.splits if_splits)
qed

lemma public_percentage_keeps:
  "public_percentage br rt r w g = (g', w') \<Longrightarrow>
   score_home g' = score_home g \<and> score_away g' = score_away g \<and> outcome g' = outcome g"
  by (auto simp: public_percentage_def Let_def split: option.splits if_splits prod.splits)

lemma determine_outcome_scores:
  "score_home (determine_outcome g) = score_home g
   \<and> score_away (determine_outcome g) = score_away g"
  by (simp add: determine_outcome_def split: option.splits)

lemma determine_outcome_result:
  "outcome (determine_outcome g) =
     (case (score_home g, score_away g) of
        (Some h, Some a) \<Rightarrow> if a < h then HOME else if h < a then AWAY else DRAW
      | _ \<Rightarrow> outcome g)"
  by (simp add: determine_outcome_def split: option.splits)

text \<open>What one row's game looks like when the row raises nothing.\<close>

lemma parse_row_scores:
  assumes "parse_row br rt po url w r = (Inr g, w')"
  shows "((score_home g = None \<and> score_away g = None)
            \<or> (\<exists>h a. score_home g = Some h \<and> score_away g = Some a))
         \<and> outcome g =
             (case (score_home g, score_away g) of
                (Some h, Some a) \<Rightarrow> if a < h then HOME else if h < a then AWAY else DRAW
              | _ \<Rightarrow> UNKNOWN)"
proof -
  obtain g1 w1 where d: "detail_odds br rt po r w Game = (g1, w1)" by fastforce
  from assms d obtain g3 where s: "scores rt r (teams r g1) = Inr g3"
    by (auto simp: parse_row_def split: sum.splits)
  from assms d s obtain g5 where f: "final_odds rt po 0 (odds_elems r) (metadata br w1 url po g3) = Inr g5"
    by (auto simp: parse_row_def split: sum.splits)
  from assms d s f have p: "public_percentage br rt r w1 (determine_outcome g5) = (g, w')"
    by (auto simp: parse_row_def split: prod.splits)
  have k1: "score_home g1 = None \<and> score_away g1 = None \<and> outcome g1 = UNKNOWN"
    using detail_odds_keeps [OF d] by (simp add: Game_def)
  have k3: "outcome g3 = UNKNOWN
     \<and> ((score_home g3 = None \<and> score_away g3 = None)
        \<or> (\<exists>h a. score_home g3 = Some h \<and> score_away g3 = Some a))"
    using scores_result [OF s] k1 teams_keeps [of r g1] by auto
  have k5: "score_home g5 = score_home g3 \<and> score_away g5 = score_away g3 \<and> outcome g5 = UNKNOWN"
    using final_odds_keeps [OF f] metadata_keeps [of br w1 url po g3] k3 by simp
  have k: "score_home g = score_home g5 \<and> score_away g = score_away g5
      \<and> outcome g = outcome (determine_outcome g5)"
    using public_percentage_keeps [OF p] determine_outcome_scores [of g5] by simp
  show ?thesis
    using k k5 k3 determine_outcome_result [of g5] by (auto split: option.splits)
qed

lemma process_rows_games:
  assumes "\<And>po w r g w'. parse_row br rt po url w r = (Inr g, w') \<Longrightarrow> valid_data g \<Longrightarrow> P g"
  shows "\<exists>gs. games (fst (process_rows br rt url rows season w)) = games season @ gs
           \<and> (\<forall>g \<in> set gs. P g)"
proof (induction rows arbitrary: season w)
  case Nil
  show ?case by simp
next
  case (Cons r rows)
  obtain res w' where pr: "parse_row br rt (possible_outcomes season) url w r = (res, w')"
    by fastforce
  show ?case
  proof (cases res)
    case (Inl e)
    then show ?thesis using pr Cons.IH [of season w'] by simp
  next
    case (Inr g)
    show ?thesis
    proof (cases "valid_data g")
      case False
      then show ?thesis using pr Inr Cons.IH [of season w'] by simp
    next
      case True
      have pg: "P g" using assms pr Inr True by blast
      obtain gs where "games (fst (process_rows br rt url rows (add_game season g) w'))
          = games (add_game season g) @ gs" and "\<forall>g \<in> set gs. P g"
        using Cons.IH [of "add_game season g" w'] by blast
      then have "games (fst (process_rows br rt url (r # rows) season w)) = games season @ (g # gs)
           \<and> (\<forall>x \<in> set (g # gs). P x)"
        using pr Inr True pg by (simp add: add_game_def)
      then show ?thesis by blast
    qed
  qed
qed

lemma process_urls_games:
  assumes "\<And>po url w r g w'. parse_row br rt po url w r = (Inr g, w') \<Longrightarrow> valid_data g \<Longrightarrow> P g"
  shows "\<exists>gs. games (fst (process_urls br rt us season w)) = games season @ gs
           \<and> (\<forall>g \<in> set gs. P g)"
proof (induction us arbitrary: season w)
  case Nil
  show ?case by simp
next
  case (Cons u us)
  obtain ok w' where nav: "go_to_link br w u = (ok, w')" by fastforce
  show ?case
  proof (cases ok)
    case False
    then show ?thesis using nav Cons.IH [of season w'] by simp
  next
    case True
    obtain s1 w1 where rows: "process_rows br rt u (game_rows (get_html_source br w')) season w' = (s1, w1)"
      by fastforce
    obtain gs1 where g1: "games s1 = games season @ gs1" "\<forall>g \<in> set gs1. P g"
      using process_rows_games [of br rt u P "game_rows (get_html_source br w')" season w'] assms rows
      by auto
    obtain gs2 where g2: "games (fst (process_urls br rt us s1 w1)) = games s1 @ gs2" "\<forall>g \<in> set gs2. P g"
      using Cons.IH [of s1 w1] by blast
    have "games (fst (process_urls br rt (u # us) season w)) = games season @ (gs1 @ gs2)
           \<and> (\<forall>x \<in> set (gs1 @ gs2). P x)"
      using nav True rows g1 g2 by auto
    then show ?thesis by blast
  qed
qed

lemma valid_data_present:
  "valid_data g \<Longrightarrow>
   team_home g \<noteq> None \<and> team_away g \<noteq> None \<and> odds_home g \<noteq> None \<and> odds_away g \<noteq> None"
  by (auto simp: valid_data_def truthy_str_def truthy_int_def split: option.splits)

text \<open>
  C8: the games the assembler appends to \<open>season.games\<close> all have \<open>team_home\<close>,
  \<open>team_away\<close>, \<open>odds_home\<close> and \<open>odds_away\<close> present (and true in the sense of the
  test of line 284); the games the season had before stay in front, unchanged.
\<close>

theorem populate_only_complete_games:
  "\<exists>gs. games (fst (populate_games_into_season br rt w season)) = games season @ gs
      \<and> (\<forall>g \<in> set gs. team_home g \<noteq> None \<and> team_away g \<noteq> None
            \<and> odds_home g \<noteq> None \<and> odds_away g \<noteq> None \<and> valid_data g)"
  unfolding populate_games_into_season_def
  by (rule process_urls_games) (simp add: valid_data_present)

theorem populate_only_complete_games_witness:
  "\<exists>gs. games (fst (populate_games_into_season (browsing nfl_site) sample_runtime [] nfl_season))
          = games nfl_season @ gs
      \<and> gs = [chiefs_eagles, chiefs_eagles_unscored]
      \<and> (\<forall>g \<in> set gs. team_home g \<noteq> None \<and> team_away g \<noteq> None
            \<and> odds_home g \<noteq> None \<and> odds_away g \<noteq> None \<and> valid_data g)"
proof -
  have e: "games (fst (populate_games_into_season (browsing nfl_site) sample_runtime [] nfl_season))
             = [chiefs_eagles, chiefs_eagles_unscored]"
    by code_simp
  have n: "games nfl_season = []" by code_simp
  from populate_only_complete_games [of "browsing nfl_site" sample_runtime "[]" nfl_season]
  show ?thesis by (simp add: e n)
qed

text \<open>
  C9: in every game the assembler appends, the outcome is HOME exactly when both scores
  are present and the home score is greater, AWAY exactly when both are present and the
  home score is less, DRAW exactly when both are present and equal, and UNKNOWN exactly
  when a score is absent.
\<close>

theorem populate_outcome_from_scores:
  "\<exists>gs. games (fst (populate_games_into_season br rt w season)) = games season @ gs
      \<and> (\<forall>g \<in> set gs.
            (outcome g = HOME \<longleftrightarrow>
               (\<exists>h a. score_home g = Some h \<and> score_away g = Some a \<and> a < h))
          \<and> (outcome g = AWAY \<longleftrightarrow>
               (\<exists>h a. score_home g = Some h \<and> score_away g = Some a \<and> h < a))
          \<and> (outcome g = DRAW \<longleftrightarrow>
               (\<exists>h a. score_home g = Some h \<and> score_away g = Some a \<and> h = a))
          \<and> (outcome g = UNKNOWN \<longleftrightarrow> score_home g = None \<or> score_away g = None))"
  unfolding populate_games_into_season_def
proof (rule process_urls_games)
  fix po url w r g w'
  assume "parse_row br rt po url w r = (Inr g, w')"
  from parse_row_scores [OF this]
  show "(outcome g = HOME \<longleftrightarrow>
               (\<exists>h a. score_home g = Some h \<and> score_away g = Some a \<and> a < h))
          \<and> (outcome g = AWAY \<longleftrightarrow>
               (\<exists>h a. score_home g = Some h \<and> score_away g = Some a \<and> h < a))
          \<and> (outcome g = DRAW \<longleftrightarrow>
               (\<exists>h a. score_home g = Some h \<and> score_away g = Some a \<and> h = a))
          \<and> (outcome g = UNKNOWN \<longleftrightarrow> score_home g = None \<or> score_away g = None)"
    by (auto split: if_splits)
qed

theorem populate_outcome_from_scores_witness:
  "\<exists>gs. games (fst (populate_games_into_season (browsing nfl_site) sample_runtime [] nfl_season))
          = games nfl_season @ gs
      \<and> gs = [chiefs_eagles, chiefs_eagles_unscored]
      \<and> outcome chiefs_eagles = HOME \<and> outcome chiefs_eagles_unscored = UNKNOWN
      \<and> (\<forall>g \<in> set gs.
            (outcome g = HOME \<longleftrightarrow>
               (\<exists>h a. score_home g = Some h \<and> score_away g = Some a \<and> a < h))
          \<and> (outcome g = AWAY \<longleftrightarrow>
               (\<exists>h a. score_home g = Some h \<and> score_away g = Some a \<and> h < a))
          \<and> (outcome g = DRAW \<longleftrightarrow>
               (\<exists>h a. score_home g = Some h \<and> score_away g = Some a \<and> h = a))
          \<and> (outcome g = UNKNOWN \<longleftrightarrow> score_home g = None \<or> score_away g = None))"
proof -
  have e: "games (fst (populate_games_into_season (browsing nfl_site) sample_runtime [] nfl_season))
             = [chiefs_eagles, chiefs_eagles_unscored]"
    by code_simp
  have n: "games nfl_season = []" by code_simp
  have o: "outcome chiefs_eagles = HOME" "outcome chiefs_eagles_unscored = UNKNOWN"
    by (simp_all add: chiefs_eagles_def chiefs_eagles_unscored_def)
  from populate_outcome_from_scores [of "browsing nfl_site" sample_runtime "[]" nfl_season]
  show ?thesis by (simp add: e n o)
qed

text \<open>
  C10: in every game the assembler appends, \<open>score_home\<close> is present if and only if
  \<open>score_away\<close> is.  And when the score text splits into two parts one of which is no
  integer, the row ends in ValueError, so that its game is not appended.
\<close>

theorem populate_scores_paired:
  "(\<exists>gs. games (fst (populate_games_into_season br rt w season)) = games season @ gs
      \<and> (\<forall>g \<in> set gs. score_home g \<noteq> None \<longleftrightarrow> score_away g \<noteq> None))
   \<and> (score_text r = Some t \<and> length (py_split t en_dash) = 2
        \<and> (py_int rt (py_strip (py_split t en_dash ! 0)) = None
           \<or> py_int rt (py_strip (py_split t en_dash ! 1)) = None)
      \<longrightarrow> fst (parse_row br rt po url w0 r) = Inl ValueError)"
proof (intro conjI impI)
  show "\<exists>gs. games (fst (populate_games_into_season br rt w season)) = games season @ gs
      \<and> (\<forall>g \<in> set gs. score_home g \<noteq> None \<longleftrightarrow> score_away g \<noteq> None)"
    unfolding populate_games_into_season_def
  proof (rule process_urls_games)
    fix po url w r g w'
    assume "parse_row br rt po url w r = (Inr g, w')"
    from parse_row_scores [OF this]
    show "score_home g \<noteq> None \<longleftrightarrow> score_away g \<noteq> None" by auto
  qed
next
  assume a: "score_text r = Some t \<and> length (py_split t en_dash) = 2
        \<and> (py_int rt (py_strip (py_split t en_dash ! 0)) = None
           \<or> py_int rt (py_strip (py_split t en_dash ! 1)) = None)"
  then have "scores rt r g = Inl ValueError" for g
    by (auto simp: scores_def Let_def split: option.splits)
  then show "fst (parse_row br rt po url w0 r) = Inl ValueError"
    by (simp add: parse_row_def split: prod.splits)
qed

theorem populate_scores_paired_witness:
  "(\<exists>gs. games (fst (populate_games_into_season (browsing nfl_site) sample_runtime [] nfl_season))
          = games nfl_season @ gs
      \<and> gs = [chiefs_eagles, chiefs_eagles_unscored]
      \<and> (\<forall>g \<in> set gs. score_home g \<noteq> None \<longleftrightarrow> score_away g \<noteq> None))
   \<and> score_text garbled_row = Some (''7'' @ en_dash @ ''x'')
   \<and> length (py_split (''7'' @ en_dash @ ''x'') en_dash) = 2
   \<and> py_int sample_runtime (py_strip (py_split (''7'' @ en_dash @ ''x'') en_dash ! 1)) = None
   \<and> fst (parse_row (browsing nfl_site) sample_runtime 2 nfl_results nfl_results garbled_row)
       = Inl ValueError"
proof -
  have e: "games (fst (populate_games_into_season (browsing nfl_site) sample_runtime [] nfl_season))
             = [chiefs_eagles, chiefs_eagles_unscored]"
    by code_simp
  have n: "games nfl_season = []" by code_simp
  have t: "score_text garbled_row = Some (''7'' @ en_dash @ ''x'')"
    by (simp add: garbled_row_def finished_row_def)
  have l: "length (py_split (''7'' @ en_dash @ ''x'') en_dash) = 2" by code_simp
  have i: "py_int sample_runtime (py_strip (py_split (''7'' @ en_dash @ ''x'') en_dash ! 1)) = None"
    by code_simp
  from populate_scores_paired [of "browsing nfl_site" sample_runtime "[]" nfl_season
      garbled_row "''7'' @ en_dash @ ''x''" 2 nfl_results nfl_results]
  show ?thesis using t l i by (simp add: e n)
qed

end
